theory Spec2Isabelle
  imports Main "HOL-Library.Sublist"
begin

section \<open>The loaded table\<close>

text \<open>
  The script \<^verbatim>\<open>csv/abc.py\<close> loads a CSV file into a pandas DataFrame (line 7) and works
  on whole columns. The model starts from the loaded DataFrame \<^verbatim>\<open>df\<close>: a row index of
  \<open>nrows\<close> positions and the columns in header order, each column a Series with one cell
  per row.

  Scope of the model. A cell is a text or NaN (\<open>None\<close>); cells that \<^verbatim>\<open>read_csv\<close> parses
  as numbers or booleans are not modelled. A text is a Python \<^verbatim>\<open>str\<close>: a sequence of
  Unicode code points. The parsing of the file itself (delimiters, the strings read as
  NaN) is not modelled either. Column labels are compared for equality only and are kept
  as \<^typ>\<open>string\<close>.
\<close>

type_synonym pytext = "nat list"

type_synonym cell = "pytext option"

text \<open>A text of ASCII characters, written as a literal.\<close>

definition ascii :: "string \<Rightarrow> pytext" where
  "ascii s = map of_char s"

record 'a frame =
  nrows :: nat
  columns :: "(string \<times> 'a list) list"

type_synonym dataframe = "cell frame"

datatype error = KeyError "string list" | AttributeError

definition header :: "'a frame \<Rightarrow> string list" where
  "header df = map fst (columns df)"

text \<open>
  The invariant of a DataFrame that \<^verbatim>\<open>read_csv\<close> returns: the column labels are distinct
  and every column has one cell per row of the index.
\<close>

definition wf_frame :: "'a frame \<Rightarrow> bool" where
  "wf_frame df \<longleftrightarrow>
     distinct (header df) \<and> list_all (\<lambda>(c, s). length s = nrows df) (columns df)"

text \<open>
  The dtype of a loaded column. \<^verbatim>\<open>read_csv\<close> infers it from the cells: a column that has
  rows and no value in any of them is typed \<^verbatim>\<open>float64\<close> (all NaN); a column with a text
  in some row is typed \<^verbatim>\<open>object\<close>, and so is every column of a table without rows.
\<close>

definition float64 :: "cell list \<Rightarrow> bool" where
  "float64 col \<longleftrightarrow> col \<noteq> [] \<and> list_all (\<lambda>v. v = None) col"

text \<open>The cell of row \<open>i\<close> in column \<open>c\<close>; used in statements only.\<close>

definition cell_at :: "dataframe \<Rightarrow> string \<Rightarrow> nat \<Rightarrow> cell" where
  "cell_at df c i = (case map_of (columns df) c of None \<Rightarrow> None | Some s \<Rightarrow> s ! i)"

section \<open>The pandas operations the script calls\<close>

text \<open>\<^verbatim>\<open>df['Bank']\<close>: one column by label, KeyError when the label is not a column.\<close>

definition getitem :: "'a frame \<Rightarrow> string \<Rightarrow> error + 'a list" where
  "getitem df c =
     (case map_of (columns df) c of None \<Rightarrow> Inl (KeyError [c]) | Some s \<Rightarrow> Inr s)"

text \<open>
  \<^verbatim>\<open>df[network_cols]\<close>: the sub-frame of the listed columns, in the order listed;
  KeyError naming the labels that are not columns.
\<close>

definition missing_labels :: "'a frame \<Rightarrow> string list \<Rightarrow> string list" where
  "missing_labels df cs = filter (\<lambda>c. c \<notin> set (header df)) cs"

fun take_columns :: "(string \<times> 'a list) list \<Rightarrow> string list \<Rightarrow> (string \<times> 'a list) list" where
  "take_columns cols [] = []"
| "take_columns cols (c # cs) =
     (case map_of cols c of
        None \<Rightarrow> take_columns cols cs
      | Some s \<Rightarrow> (c, s) # take_columns cols cs)"

definition getitem_list :: "'a frame \<Rightarrow> string list \<Rightarrow> error + 'a frame" where
  "getitem_list df cs =
     (if missing_labels df cs \<noteq> [] then Inl (KeyError (missing_labels df cs))
      else Inr \<lparr>nrows = nrows df, columns = take_columns (columns df) cs\<rparr>)"

text \<open>
  \<^verbatim>\<open>DataFrame.apply(f)\<close>, axis 0: \<open>f\<close> is called on every column, in header order; an
  exception raised by \<open>f\<close> ends the call.
\<close>

fun apply_columns ::
  "('a list \<Rightarrow> error + 'b list) \<Rightarrow> (string \<times> 'a list) list \<Rightarrow> error + (string \<times> 'b list) list" where
  "apply_columns f [] = Inr []"
| "apply_columns f ((c, s) # cols) =
     (case f s of
        Inl e \<Rightarrow> Inl e
      | Inr t \<Rightarrow> (case apply_columns f cols of Inl e \<Rightarrow> Inl e | Inr r \<Rightarrow> Inr ((c, t) # r)))"

definition apply_cols :: "('a list \<Rightarrow> error + 'b list) \<Rightarrow> 'a frame \<Rightarrow> error + 'b frame" where
  "apply_cols f df =
     (case apply_columns f (columns df) of
        Inl e \<Rightarrow> Inl e
      | Inr cols \<Rightarrow> Inr \<lparr>nrows = nrows df, columns = cols\<rparr>)"

text \<open>\<^verbatim>\<open>DataFrame.any(axis=1)\<close>: for every row, the disjunction over the columns.\<close>

definition any_axis1 :: "bool frame \<Rightarrow> bool list" where
  "any_axis1 df =
     foldr (\<lambda>(c, s) acc. map2 (\<or>) s acc) (columns df) (replicate (nrows df) False)"

text \<open>\<^verbatim>\<open>a & b\<close> on two boolean Series over the same index.\<close>

definition mask_and :: "bool list \<Rightarrow> bool list \<Rightarrow> bool list" where
  "mask_and a b = map2 (\<and>) a b"

text \<open>
  \<^verbatim>\<open>df.loc[mask, c]\<close>: the cells of column \<open>c\<close> in the rows where the mask is True, in
  row order; KeyError when \<open>c\<close> is not a column, whatever the mask.
\<close>

definition loc :: "'a frame \<Rightarrow> bool list \<Rightarrow> string \<Rightarrow> error + 'a list" where
  "loc df msk c =
     (case map_of (columns df) c of
        None \<Rightarrow> Inl (KeyError [c])
      | Some s \<Rightarrow> Inr (map fst (filter snd (zip s msk))))"

text \<open>
  \<^verbatim>\<open>Series.unique()\<close>: the values in order of appearance; a value already seen is
  dropped. NaN is one value among the others.
\<close>

fun unique_acc :: "'a list \<Rightarrow> 'a list \<Rightarrow> 'a list" where
  "unique_acc seen [] = seen"
| "unique_acc seen (x # xs) =
     (if x \<in> set seen then unique_acc seen xs else unique_acc (seen @ [x]) xs)"

definition unique :: "'a list \<Rightarrow> 'a list" where
  "unique xs = unique_acc [] xs"

subsection \<open>Lower-casing\<close>

text \<open>
  \<^verbatim>\<open>str.lower\<close> replaces every code point of a text by its Unicode lower-case mapping.
  In the ASCII range the mapping turns the letters A to Z (65 to 90) into a to z and
  leaves every other code point. From code point 128 on, the mapping is the table of the
  Unicode database that Python carries: one to three code points, and for the capital
  sigma a result that depends on the neighbours in the text. That table is not part of the
  repository; it is the parameter \<open>U\<close> of the model: \<open>U before c after\<close> is the
  lower-casing of the code point \<open>c\<close> that stands between the texts \<open>before\<close> and
  \<open>after\<close>.
\<close>

type_synonym unicode_lower = "pytext \<Rightarrow> nat \<Rightarrow> pytext \<Rightarrow> pytext"

definition lower_ascii :: "nat \<Rightarrow> nat" where
  "lower_ascii c = (if 65 \<le> c \<and> c \<le> 90 then c + 32 else c)"

fun lower_from :: "unicode_lower \<Rightarrow> pytext \<Rightarrow> pytext \<Rightarrow> pytext" where
  "lower_from U before [] = []"
| "lower_from U before (c # after) =
     (if c < 128 then [lower_ascii c] else U before c after)
       @ lower_from U (before @ [c]) after"

definition lower :: "unicode_lower \<Rightarrow> pytext \<Rightarrow> pytext" where
  "lower U s = lower_from U [] s"

text \<open>
  An excerpt of Python's table, for the examples: the capital I with dot above (U+0130,
  304) lowers to i followed by the combining dot above (105, 775), and the capital E with
  acute (U+00C9, 201) to its small letter (233). The dotless i (U+0131, 305) and the long
  s (U+017F, 383) are lower-case letters and stay as they are. The excerpt leaves every
  other code point; it is used on texts of ASCII and of these code points only.
\<close>

definition unicode_excerpt :: unicode_lower where
  "unicode_excerpt before c after =
     (if c = 304 then [105, 775] else if c = 201 then [233] else [c])"

subsection \<open>The string accessor\<close>

text \<open>
  The accessor \<^verbatim>\<open>Series.str\<close> checks the dtype before any string method runs: on a
  Series that is not of strings, such as a \<^verbatim>\<open>float64\<close> one, it raises AttributeError
  (\<^verbatim>\<open>Can only use .str accessor with string values\<close>).
\<close>

definition str_accessor :: "cell list \<Rightarrow> error + cell list" where
  "str_accessor col = (if float64 col then Inl AttributeError else Inr col)"

text \<open>\<^verbatim>\<open>Series.str.lower()\<close>: NaN stays NaN.\<close>

definition str_lower :: "unicode_lower \<Rightarrow> cell list \<Rightarrow> error + cell list" where
  "str_lower U col =
     (case str_accessor col of Inl e \<Rightarrow> Inl e | Inr s \<Rightarrow> Inr (map (map_option (lower U)) s))"

text \<open>
  \<^verbatim>\<open>Series.str.contains(pat, na=...)\<close>. The pattern is a regular expression; the two
  patterns of the script have no metacharacter, so the search is for the pattern as a
  contiguous part of the text. A NaN cell gives the value of \<open>na\<close>.
\<close>

fun contains :: "pytext \<Rightarrow> pytext \<Rightarrow> bool" where
  "contains pat [] = (pat = [])"
| "contains pat (c # cs) = (prefix pat (c # cs) \<or> contains pat cs)"

definition str_contains :: "pytext \<Rightarrow> bool \<Rightarrow> cell list \<Rightarrow> error + bool list" where
  "str_contains pat na col =
     (case str_accessor col of
        Inl e \<Rightarrow> Inl e
      | Inr s \<Rightarrow> Inr (map (\<lambda>v. case v of None \<Rightarrow> na | Some t \<Rightarrow> contains pat t) s))"

text \<open>The chain \<^verbatim>\<open>col.str.lower().str.contains(pat, na=False)\<close> of lines 13 and 16.\<close>

definition lower_contains :: "unicode_lower \<Rightarrow> pytext \<Rightarrow> cell list \<Rightarrow> error + bool list" where
  "lower_contains U pat col =
     (case str_lower U col of Inl e \<Rightarrow> Inl e | Inr l \<Rightarrow> str_contains pat False l)"

section \<open>The script\<close>

definition network_cols :: "string list" where
  "network_cols = [''Network 1'', ''Network 2'', ''Network 3'', ''Network 4'']"

definition visa_mask :: "unicode_lower \<Rightarrow> dataframe \<Rightarrow> error + bool list" where
  "visa_mask U df =
     (case getitem_list df network_cols of
        Inl e \<Rightarrow> Inl e
      | Inr sub \<Rightarrow>
          (case apply_cols (\<lambda>col. lower_contains U (ascii ''visa signature'') col) sub of
             Inl e \<Rightarrow> Inl e
           | Inr hits \<Rightarrow> Inr (any_axis1 hits)))"

definition canara_mask :: "unicode_lower \<Rightarrow> dataframe \<Rightarrow> error + bool list" where
  "canara_mask U df =
     (case getitem df ''Bank'' of
        Inl e \<Rightarrow> Inl e
      | Inr col \<Rightarrow> lower_contains U (ascii ''icici'') col)"

definition final_mask :: "unicode_lower \<Rightarrow> dataframe \<Rightarrow> error + bool list" where
  "final_mask U df =
     (case visa_mask U df of
        Inl e \<Rightarrow> Inl e
      | Inr v \<Rightarrow> (case canara_mask U df of Inl e \<Rightarrow> Inl e | Inr c \<Rightarrow> Inr (mask_and v c)))"

definition matching_cards :: "unicode_lower \<Rightarrow> dataframe \<Rightarrow> error + cell list" where
  "matching_cards U df =
     (case final_mask U df of
        Inl e \<Rightarrow> Inl e
      | Inr m \<Rightarrow>
          (case loc df m ''Credit Card Name'' of
             Inl e \<Rightarrow> Inl e
           | Inr s \<Rightarrow> Inr (unique s)))"

subsection \<open>Output\<close>

text \<open>
  Standard output is the list of what the \<^verbatim>\<open>print\<close> calls have written so far, one
  element per call: the \<^verbatim>\<open>str\<close> of the arguments, separated by one space, before the
  line end that the call adds. The \<^verbatim>\<open>str\<close> of a text is the text, that of NaN is
  \<^verbatim>\<open>nan\<close>.
\<close>

definition py_str :: "cell \<Rightarrow> pytext" where
  "py_str v = (case v of None \<Rightarrow> ascii ''nan'' | Some s \<Rightarrow> s)"

fun join_args :: "pytext list \<Rightarrow> pytext" where
  "join_args [] = []"
| "join_args [a] = a"
| "join_args (a # b # r) = a @ ascii '' '' @ join_args (b # r)"

definition py_print :: "pytext list \<Rightarrow> pytext list \<Rightarrow> pytext list" where
  "py_print args out = out @ [join_args args]"

definition header_line :: pytext where
  "header_line = ascii ''Matching Credit Cards with both 'Visa' and 'Canara':''"

fun report_loop :: "cell list \<Rightarrow> pytext list \<Rightarrow> pytext list" where
  "report_loop [] out = out"
| "report_loop (c # cards) out =
     report_loop cards (py_print [ascii '''', py_str c, ascii ''(Visa Signature)''] out)"

definition report :: "cell list \<Rightarrow> pytext list \<Rightarrow> pytext list" where
  "report cards out = report_loop cards (py_print [header_line] out)"

text \<open>
  A run of the script on a loaded table: the exception that ended it, if any, and the
  lines on standard output.
\<close>

definition script :: "unicode_lower \<Rightarrow> dataframe \<Rightarrow> error option \<times> pytext list" where
  "script U df =
     (case matching_cards U df of
        Inl e \<Rightarrow> (Some e, [])
      | Inr cards \<Rightarrow> (None, report cards []))"

section \<open>Row-wise reading\<close>

text \<open>
  The predicates as the specification words them, row by row: a column matches in row
  \<open>i\<close> when its cell is present and the lower-cased text has the lower-cased needle as a
  contiguous part (\<^const>\<open>sublist\<close>); the any-column predicate is the disjunction over
  the columns. These definitions are used to state what the column-wise script computes.
\<close>

definition spec_matches_one ::
  "unicode_lower \<Rightarrow> dataframe \<Rightarrow> string \<Rightarrow> pytext \<Rightarrow> nat \<Rightarrow> bool" where
  "spec_matches_one U df c needle i =
     (case cell_at df c i of None \<Rightarrow> False
      | Some v \<Rightarrow> sublist (lower U needle) (lower U v))"

definition spec_matches_any ::
  "unicode_lower \<Rightarrow> dataframe \<Rightarrow> string list \<Rightarrow> pytext \<Rightarrow> nat \<Rightarrow> bool" where
  "spec_matches_any U df cols needle i =
     list_ex (\<lambda>c. spec_matches_one U df c needle i) cols"

text \<open>Column \<open>c\<close> is a column of the table and its dtype is \<^verbatim>\<open>object\<close>.\<close>

definition text_column :: "dataframe \<Rightarrow> string \<Rightarrow> bool" where
  "text_column df c = (case map_of (columns df) c of None \<Rightarrow> False | Some s \<Rightarrow> \<not> float64 s)"

text \<open>A qualifying row satisfies both predicates.\<close>

definition qualifies :: "unicode_lower \<Rightarrow> dataframe \<Rightarrow> nat \<Rightarrow> bool" where
  "qualifies U df i \<longleftrightarrow>
     spec_matches_any U df network_cols (ascii ''visa signature'') i \<and>
     spec_matches_one U df ''Bank'' (ascii ''icici'') i"

definition card_name :: "dataframe \<Rightarrow> nat \<Rightarrow> cell" where
  "card_name df i = cell_at df ''Credit Card Name'' i"

text \<open>Row \<open>i\<close> qualifies and no qualifying row above it has the same card name.\<close>

definition first_qualifying :: "unicode_lower \<Rightarrow> dataframe \<Rightarrow> nat \<Rightarrow> bool" where
  "first_qualifying U df i \<longleftrightarrow>
     qualifies U df i \<and>
     (\<forall>j<i. qualifies U df j \<longrightarrow> card_name df j \<noteq> card_name df i)"

text \<open>
  Two code points that are the same, or the two cases of one of the letters A to Z; and
  two cells that differ in the case of these letters only.
\<close>

definition same_letter :: "nat \<Rightarrow> nat \<Rightarrow> bool" where
  "same_letter a b \<longleftrightarrow>
     a = b \<or> (65 \<le> a \<and> a \<le> 90 \<and> b = a + 32) \<or> (65 \<le> b \<and> b \<le> 90 \<and> a = b + 32)"

definition case_variant :: "cell \<Rightarrow> cell \<Rightarrow> bool" where
  "case_variant v w = rel_option (list_all2 same_letter) v w"

text \<open>
  The lower-casing of a code point from 128 on does not depend on the case of the letters
  A to Z around it. Python's table has this property: the one rule that looks at the
  neighbours, for the capital sigma, asks whether they are cased letters, not which case
  they have.
\<close>

definition ascii_case_stable :: "unicode_lower \<Rightarrow> bool" where
  "ascii_case_stable U \<longleftrightarrow>
     (\<forall>b b' c a a'. list_all2 same_letter b b' \<longrightarrow> list_all2 same_letter a a' \<longrightarrow>
         U b c a = U b' c a')"

text \<open>
  Letter pairs of Unicode beyond A to Z, for the examples: the dotless i (305), whose
  upper case is I (73), and the long s (383), whose upper case is S (83).
\<close>

definition unicode_same_letter :: "nat \<Rightarrow> nat \<Rightarrow> bool" where
  "unicode_same_letter a b \<longleftrightarrow>
     same_letter a b \<or> (a, b) \<in> set [(73, 305), (305, 73), (83, 383), (383, 83)]"

section \<open>Tables for the examples\<close>

text \<open>The four-row example table of the specification.\<close>

definition example_table :: dataframe where
  "example_table =
     \<lparr>nrows = 4,
      columns =
        [(''Network 1'', [Some (ascii ''Visa Signature''), Some (ascii ''Rupay''), None,
                          Some (ascii ''Visa Signature'')]),
         (''Network 2'', [None, None, Some (ascii ''VISA SIGNATURE''), None]),
         (''Network 3'', [None, None, None, None]),
         (''Network 4'', [None, None, None, None]),
         (''Bank'', [Some (ascii ''ICICI Bank''), Some (ascii ''ICICI Bank''),
                     Some (ascii ''HDFC''), Some (ascii ''ICICI'')]),
         (''Credit Card Name'', [Some (ascii ''Card A''), Some (ascii ''Card B''),
                                 Some (ascii ''Card C''), Some (ascii ''Card A'')])]\<rparr>"

text \<open>
  A second table: rows 0 and 3 qualify with the same card name, row 1 qualifies, row 2 has
  no network at all, row 4 qualifies and has no card name.
\<close>

definition sample_table :: dataframe where
  "sample_table =
     \<lparr>nrows = 5,
      columns =
        [(''Credit Card Name'', [Some (ascii ''Card B''), Some (ascii ''Card A''),
                                 Some (ascii ''Card C''), Some (ascii ''Card B''), None]),
         (''Bank'', [Some (ascii ''ICICI Bank''), Some (ascii ''icici''),
                     Some (ascii ''ICICI Bank''), Some (ascii ''Icici Bank''),
                     Some (ascii ''ICICI'')]),
         (''Network 1'', [Some (ascii ''Visa Signature''), None, None, None, None]),
         (''Network 2'', [None, None, None, None, Some (ascii ''Visa Signature'')]),
         (''Network 3'', [None, Some (ascii ''Rupay, visa SIGNATURE''), None, None, None]),
         (''Network 4'', [None, None, None, Some (ascii ''VISA Signature''), None])]\<rparr>"

text \<open>
  The second table with its columns in another order and one more column, which the
  script does not name.
\<close>

definition wide_table :: dataframe where
  "wide_table =
     \<lparr>nrows = 5,
      columns =
        [(''Network 4'', [None, None, None, Some (ascii ''VISA Signature''), None]),
         (''Annual Fee'', [Some (ascii ''low''), None, Some (ascii ''high''), None, None]),
         (''Network 3'', [None, Some (ascii ''Rupay, visa SIGNATURE''), None, None, None]),
         (''Network 2'', [None, None, None, None, Some (ascii ''Visa Signature'')]),
         (''Network 1'', [Some (ascii ''Visa Signature''), None, None, None, None]),
         (''Bank'', [Some (ascii ''ICICI Bank''), Some (ascii ''icici''),
                     Some (ascii ''ICICI Bank''), Some (ascii ''Icici Bank''),
                     Some (ascii ''ICICI'')]),
         (''Credit Card Name'', [Some (ascii ''Card B''), Some (ascii ''Card A''),
                                 Some (ascii ''Card C''), Some (ascii ''Card B''), None])]\<rparr>"

text \<open>
  A table whose column Network 4 has no value in any row, and whose row 1 has no network
  at all.
\<close>

definition empty_network_table :: dataframe where
  "empty_network_table =
     \<lparr>nrows = 2,
      columns =
        [(''Network 1'', [Some (ascii ''Visa Signature''), None]),
         (''Network 2'', [Some (ascii ''Rupay''), None]),
         (''Network 3'', [Some (ascii ''Mastercard''), None]),
         (''Network 4'', [None, None]),
         (''Bank'', [Some (ascii ''ICICI Bank''), Some (ascii ''ICICI Bank'')]),
         (''Credit Card Name'', [Some (ascii ''Card A''), Some (ascii ''Card B'')])]\<rparr>"

text \<open>A table without the column Credit Card Name, and without a value in Network 4.\<close>

definition no_name_table :: dataframe where
  "no_name_table =
     \<lparr>nrows = 1,
      columns =
        [(''Network 1'', [Some (ascii ''Visa Signature'')]),
         (''Network 2'', [Some (ascii ''Rupay'')]),
         (''Network 3'', [Some (ascii ''Mastercard'')]),
         (''Network 4'', [None]),
         (''Bank'', [Some (ascii ''ICICI Bank'')])]\<rparr>"

text \<open>
  Two tables that differ in the case of the letters A to Z of their cells only; the
  small e with acute (233) of row 0 is the same in both.
\<close>

definition cased_table :: dataframe where
  "cased_table =
     \<lparr>nrows = 2,
      columns =
        [(''Network 1'', [Some (ascii ''VISA Signature''), None]),
         (''Network 2'', [None, Some (ascii ''RuPay'')]),
         (''Network 3'', [Some (ascii ''CAF'' @ [233] @ ascii '' Visa''), None]),
         (''Network 4'', [None, Some (ascii ''MasterCard'')]),
         (''Bank'', [Some (ascii ''IcIcI Bank''), Some (ascii ''HDFC'')])]\<rparr>"

definition plain_table :: dataframe where
  "plain_table =
     \<lparr>nrows = 2,
      columns =
        [(''Network 1'', [Some (ascii ''visa signature''), None]),
         (''Network 2'', [None, Some (ascii ''rupay'')]),
         (''Network 3'', [Some (ascii ''caf'' @ [233] @ ascii '' visa''), None]),
         (''Network 4'', [None, Some (ascii ''mastercard'')]),
         (''Bank'', [Some (ascii ''icici bank''), Some (ascii ''hdfc'')])]\<rparr>"

text \<open>
  The texts \<^verbatim>\<open>icici bank\<close> written with the dotless i and \<^verbatim>\<open>visa signature\<close> written
  with the long s. Their upper-casings are \<^verbatim>\<open>ICICI BANK\<close> and \<^verbatim>\<open>VISA SIGNATURE\<close>.
\<close>

definition dotless_icici_bank :: pytext where
  "dotless_icici_bank = [305, 99, 305, 99, 305] @ ascii '' bank''"

definition long_s_visa_signature :: pytext where
  "long_s_visa_signature = ascii ''vi'' @ [383] @ ascii ''a '' @ [383] @ ascii ''ignature''"

text \<open>
  One row in capital letters, and the same row with the network and the bank written with
  the long s and the dotless i.
\<close>

definition capital_table :: dataframe where
  "capital_table =
     \<lparr>nrows = 1,
      columns =
        [(''Network 1'', [Some (ascii ''VISA SIGNATURE'')]),
         (''Network 2'', [Some (ascii ''RUPAY'')]),
         (''Network 3'', [Some (ascii ''MASTERCARD'')]),
         (''Network 4'', [Some (ascii ''AMEX'')]),
         (''Bank'', [Some (ascii ''ICICI BANK'')]),
         (''Credit Card Name'', [Some (ascii ''Card A'')])]\<rparr>"

definition dotless_table :: dataframe where
  "dotless_table =
     \<lparr>nrows = 1,
      columns =
        [(''Network 1'', [Some long_s_visa_signature]),
         (''Network 2'', [Some (ascii ''RUPAY'')]),
         (''Network 3'', [Some (ascii ''MASTERCARD'')]),
         (''Network 4'', [Some (ascii ''AMEX'')]),
         (''Bank'', [Some dotless_icici_bank]),
         (''Credit Card Name'', [Some (ascii ''Card A'')])]\<rparr>"

text \<open>The same row with the bank written \<^verbatim>\<open>ICIC\<close> and the capital I with dot above.\<close>

definition dotted_table :: dataframe where
  "dotted_table =
     \<lparr>nrows = 1,
      columns =
        [(''Network 1'', [Some (ascii ''VISA SIGNATURE'')]),
         (''Network 2'', [Some (ascii ''RUPAY'')]),
         (''Network 3'', [Some (ascii ''MASTERCARD'')]),
         (''Network 4'', [Some (ascii ''AMEX'')]),
         (''Bank'', [Some (ascii ''ICIC'' @ [304])]),
         (''Credit Card Name'', [Some (ascii ''Card A'')])]\<rparr>"

lemmas script_defs =
  visa_mask_def canara_mask_def final_mask_def matching_cards_def network_cols_def
  getitem_def getitem_list_def missing_labels_def header_def apply_cols_def any_axis1_def
  mask_and_def loc_def unique_def str_lower_def str_contains_def str_accessor_def
  lower_contains_def float64_def lower_def lower_ascii_def ascii_def

section \<open>The operations, characterised\<close>

lemma contains_sublist: "contains pat s = sublist pat s"
  by (induction s) (simp_all add: sublist_Cons_right)

lemma float64_lower: "float64 (map (map_option (lower U)) col) = float64 col"
  by (simp add: float64_def list_all_iff)

lemma lower_contains_eq:
  "lower_contains U pat col =
     (if float64 col then Inl AttributeError
      else Inr (map (\<lambda>v. case v of None \<Rightarrow> False | Some t \<Rightarrow> sublist pat (lower U t)) col))"
  by (simp add: lower_contains_def str_lower_def str_contains_def str_accessor_def
      float64_lower contains_sublist comp_def option.case_eq_if option.map_sel
      cong: option.case_cong)

lemma apply_columns_lower_contains:
  "apply_columns (lower_contains U pat) cols =
     (if list_ex (\<lambda>(c, s). float64 s) cols then Inl AttributeError
      else Inr (map (\<lambda>(c, s). (c, map (\<lambda>v. case v of None \<Rightarrow> False
                                          | Some t \<Rightarrow> sublist pat (lower U t)) s)) cols))"
  by (induction cols) (auto simp: lower_contains_eq)

lemma take_columns_present:
  "set cs \<subseteq> fst ` set cols \<Longrightarrow>
   take_columns cols cs = map (\<lambda>c. (c, the (map_of cols c))) cs"
  by (induction cs) (auto simp: map_of_eq_None_iff split: option.splits)

lemma any_fold_length:
  "list_all (\<lambda>(c, s). length s = n) cols \<Longrightarrow>
   length (foldr (\<lambda>(c, s) acc. map2 (\<or>) s acc) cols (replicate n False)) = n"
  by (induction cols) (auto)

lemma any_fold_nth:
  "list_all (\<lambda>(c, s). length s = n) cols \<Longrightarrow> i < n \<Longrightarrow>
   foldr (\<lambda>(c, s) acc. map2 (\<or>) s acc) cols (replicate n False) ! i
     = list_ex (\<lambda>(c, s). s ! i) cols"
  by (induction cols) (auto simp: any_fold_length)

lemma wf_column_length:
  "wf_frame df \<Longrightarrow> map_of (columns df) c = Some s \<Longrightarrow> length s = nrows df"
  by (auto simp: wf_frame_def list_all_iff dest!: map_of_SomeD)

lemma present_column:
  "c \<in> set (header df) \<Longrightarrow> \<exists>s. map_of (columns df) c = Some s"
  by (cases "map_of (columns df) c") (auto simp: header_def map_of_eq_None_iff)

lemma absent_column:
  "c \<notin> set (header df) \<Longrightarrow> map_of (columns df) c = None"
  by (simp add: header_def map_of_eq_None_iff)

lemma text_column_present: "text_column df c \<Longrightarrow> c \<in> set (header df)"
  by (cases "map_of (columns df) c")
     (auto simp: text_column_def header_def dest!: map_of_SomeD intro: rev_image_eqI)

lemma lower_visa: "lower U (ascii ''visa signature'') = ascii ''visa signature''"
  by (simp add: lower_def lower_ascii_def ascii_def)

lemma lower_icici: "lower U (ascii ''icici'') = ascii ''icici''"
  by (simp add: lower_def lower_ascii_def ascii_def)

lemma any_match_general:
  assumes wf: "wf_frame df" and pres: "set cs \<subseteq> set (header df)"
  shows "any_axis1 \<lparr>nrows = nrows df,
            columns = map (\<lambda>(c, s). (c, map (\<lambda>v. case v of None \<Rightarrow> False
                                          | Some t \<Rightarrow> sublist pat (lower U t)) s))
                        (take_columns (columns df) cs)\<rparr>
         = map (\<lambda>i. list_ex (\<lambda>c. case cell_at df c i of None \<Rightarrow> False
                                   | Some v \<Rightarrow> sublist pat (lower U v)) cs) [0..<nrows df]"
    (is "?lhs = ?rhs")
proof (rule nth_equalityI)
  let ?g = "map (\<lambda>v. case v of None \<Rightarrow> False | Some t \<Rightarrow> sublist pat (lower U t))"
  let ?bcols = "map (\<lambda>c. (c, ?g (the (map_of (columns df) c)))) cs"
  have tc: "take_columns (columns df) cs = map (\<lambda>c. (c, the (map_of (columns df) c))) cs"
    using pres by (intro take_columns_present) (simp add: header_def)
  have lhs: "?lhs = foldr (\<lambda>(c, s) acc. map2 (\<or>) s acc) ?bcols (replicate (nrows df) False)"
    by (simp add: any_axis1_def tc comp_def)
  have len: "list_all (\<lambda>(c, s). length s = nrows df) ?bcols"
  proof -
    have "length (?g (the (map_of (columns df) c))) = nrows df" if c: "c \<in> set cs" for c
    proof -
      obtain s where "map_of (columns df) c = Some s"
        using present_column [of c df] c pres by auto
      then show ?thesis using wf by (simp add: wf_column_length)
    qed
    then show ?thesis by (simp add: list_all_iff)
  qed
  show "length ?lhs = length ?rhs"
    using any_fold_length [OF len] by (simp add: lhs)
  fix i assume "i < length ?lhs"
  then have i: "i < nrows df"
    using any_fold_length [OF len] by (simp add: lhs)
  have "?lhs ! i = list_ex (\<lambda>(c, s). s ! i) ?bcols"
    using any_fold_nth [OF len i] by (simp add: lhs)
  also have "\<dots> = list_ex (\<lambda>c. ?g (the (map_of (columns df) c)) ! i) cs"
    by (simp add: list_ex_iff)
  also have "\<dots> = list_ex (\<lambda>c. case cell_at df c i of None \<Rightarrow> False
                                   | Some v \<Rightarrow> sublist pat (lower U v)) cs"
  proof -
    have "?g (the (map_of (columns df) c)) ! i =
          (case cell_at df c i of None \<Rightarrow> False | Some v \<Rightarrow> sublist pat (lower U v))"
      if c: "c \<in> set cs" for c
    proof -
      obtain s where s: "map_of (columns df) c = Some s"
        using present_column [of c df] c pres by auto
      then have "length s = nrows df" using wf by (rule wf_column_length [rotated])
      then show ?thesis using i s by (simp add: cell_at_def)
    qed
    then show ?thesis by (simp add: list_ex_iff)
  qed
  finally show "?lhs ! i = ?rhs ! i" using i by simp
qed

lemma float64_take_columns:
  assumes "set cs \<subseteq> set (header df)"
  shows "list_ex (\<lambda>(c, s). float64 s) (take_columns (columns df) cs) \<longleftrightarrow>
         \<not> list_all (text_column df) cs"
proof -
  have tc: "take_columns (columns df) cs = map (\<lambda>c. (c, the (map_of (columns df) c))) cs"
    using assms by (intro take_columns_present) (simp add: header_def)
  have "float64 (the (map_of (columns df) c)) \<longleftrightarrow> \<not> text_column df c" if c: "c \<in> set cs" for c
  proof -
    obtain s where s: "map_of (columns df) c = Some s"
      using present_column [of c df] c assms by auto
    then show ?thesis by (simp add: text_column_def)
  qed
  then show ?thesis by (auto simp: tc list_ex_iff list_all_iff)
qed

lemma visa_mask_cases:
  assumes "wf_frame df" and "set network_cols \<subseteq> set (header df)"
  shows "visa_mask U df =
           (if list_all (text_column df) network_cols
            then Inr (map (spec_matches_any U df network_cols (ascii ''visa signature'')) [0..<nrows df])
            else Inl AttributeError)"
proof -
  have "missing_labels df network_cols = []"
    using assms(2) by (auto simp: missing_labels_def filter_empty_conv)
  then show ?thesis
    unfolding spec_matches_any_def spec_matches_one_def lower_visa
    using any_match_general [OF assms, of "ascii ''visa signature''" U] float64_take_columns [OF assms(2)]
    by (simp add: visa_mask_def getitem_list_def apply_cols_def apply_columns_lower_contains)
qed

lemma visa_mask_rows:
  assumes "wf_frame df" and "list_all (text_column df) network_cols"
  shows "visa_mask U df =
           Inr (map (spec_matches_any U df network_cols (ascii ''visa signature'')) [0..<nrows df])"
proof -
  have "set network_cols \<subseteq> set (header df)"
    using assms(2) by (auto simp: list_all_iff text_column_present)
  then show ?thesis using visa_mask_cases [OF assms(1)] assms(2) by simp
qed

lemma visa_mask_missing:
  "\<not> set network_cols \<subseteq> set (header df) \<Longrightarrow>
   visa_mask U df = Inl (KeyError (missing_labels df network_cols))"
  by (auto simp: visa_mask_def getitem_list_def missing_labels_def filter_empty_conv)

lemma canara_mask_cases:
  assumes "wf_frame df" and "''Bank'' \<in> set (header df)"
  shows "canara_mask U df =
           (if text_column df ''Bank''
            then Inr (map (spec_matches_one U df ''Bank'' (ascii ''icici'')) [0..<nrows df])
            else Inl AttributeError)"
proof -
  obtain s where s: "map_of (columns df) ''Bank'' = Some s"
    using present_column [OF assms(2)] by auto
  then have len: "length s = nrows df" using assms(1) by (rule wf_column_length [rotated])
  have "map (\<lambda>v. case v of None \<Rightarrow> False | Some t \<Rightarrow> sublist (ascii ''icici'') (lower U t)) s =
        map (spec_matches_one U df ''Bank'' (ascii ''icici'')) [0..<nrows df]"
    unfolding spec_matches_one_def lower_icici
    by (rule nth_equalityI) (simp_all add: len cell_at_def s)
  then show ?thesis
    by (simp add: canara_mask_def getitem_def s lower_contains_eq text_column_def)
qed

lemma canara_mask_rows:
  assumes "wf_frame df" and "text_column df ''Bank''"
  shows "canara_mask U df = Inr (map (spec_matches_one U df ''Bank'' (ascii ''icici'')) [0..<nrows df])"
  using canara_mask_cases [OF assms(1) text_column_present [OF assms(2)]] assms(2) by simp

lemma canara_mask_missing:
  "''Bank'' \<notin> set (header df) \<Longrightarrow> canara_mask U df = Inl (KeyError [''Bank''])"
  by (simp add: canara_mask_def getitem_def absent_column)

lemma spec_matches_any_iff:
  "spec_matches_any U df cols needle i \<longleftrightarrow>
     (\<exists>c\<in>set cols. \<exists>v. cell_at df c i = Some v \<and> sublist (lower U needle) (lower U v))"
  by (auto simp: spec_matches_any_def spec_matches_one_def list_ex_iff split: option.splits)

text \<open>
  What line 13 computes on a table whose four network columns are of dtype
  \<^verbatim>\<open>object\<close>: the row-wise any-column predicate; a row without any network cell gets
  False.
\<close>

lemma visa_mask_on_text_columns:
  assumes "wf_frame df" and "list_all (text_column df) network_cols"
  shows "\<exists>m. visa_mask U df = Inr m \<and> length m = nrows df \<and>
           (\<forall>i<nrows df. m ! i \<longleftrightarrow>
              (\<exists>c\<in>set network_cols. \<exists>v. cell_at df c i = Some v \<and>
                  sublist (lower U (ascii ''visa signature'')) (lower U v)))"
  by (simp add: visa_mask_rows [OF assms] spec_matches_any_iff)

lemma all_null_row_on_text_columns:
  assumes "wf_frame df" and "list_all (text_column df) network_cols"
    and "i < nrows df" and "\<forall>c\<in>set network_cols. cell_at df c i = None"
  shows "\<exists>m. visa_mask U df = Inr m \<and> \<not> m ! i"
  using assms(3,4) by (simp add: visa_mask_rows [OF assms(1,2)] spec_matches_any_iff)

lemma final_mask_rows:
  assumes "wf_frame df" and "list_all (text_column df) network_cols"
    and "text_column df ''Bank''"
  shows "final_mask U df = Inr (map (qualifies U df) [0..<nrows df])"
  by (simp add: final_mask_def visa_mask_rows [OF assms(1,2)] canara_mask_rows [OF assms(1,3)]
      mask_and_def map2_map_map qualifies_def)

lemma unique_acc_snoc:
  "unique_acc seen (xs @ [x]) =
     (if x \<in> set (unique_acc seen xs) then unique_acc seen xs else unique_acc seen xs @ [x])"
  by (induction xs arbitrary: seen) auto

lemma set_unique_acc: "set (unique_acc seen xs) = set seen \<union> set xs"
  by (induction xs arbitrary: seen) auto

lemma distinct_unique_acc: "distinct seen \<Longrightarrow> distinct (unique_acc seen xs)"
  by (induction xs arbitrary: seen) auto

lemma unique_snoc:
  "unique (xs @ [x]) = (if x \<in> set xs then unique xs else unique xs @ [x])"
  by (simp add: unique_def unique_acc_snoc set_unique_acc)

lemma unique_map_filter:
  "unique (map f (filter q [0..<n])) =
     map f (filter (\<lambda>i. q i \<and> (\<forall>j<i. q j \<longrightarrow> f j \<noteq> f i)) [0..<n])"
proof (induction n)
  case 0
  show ?case by (simp add: unique_def)
next
  case (Suc n)
  have mem: "f n \<in> set (map f (filter q [0..<n])) \<longleftrightarrow> (\<exists>j<n. q j \<and> f j = f n)"
    by (auto simp: image_iff)
  show ?case
    using Suc mem by (auto simp: unique_snoc simp del: set_map set_filter)
qed

lemma set_unique: "set (unique xs) = set xs"
  by (simp add: unique_def set_unique_acc)

lemma distinct_unique: "distinct (unique xs)"
  by (simp add: unique_def distinct_unique_acc)

lemma loc_rows:
  assumes "length s = n"
  shows "map fst (filter snd (zip s (map q [0..<n]))) = map ((!) s) (filter q [0..<n])"
proof -
  have "zip s (map q [0..<n]) = map (\<lambda>i. (s ! i, q i)) [0..<n]"
    using assms by (intro nth_equalityI) simp_all
  then show ?thesis by (simp add: filter_map comp_def)
qed

lemma matching_cards_rows:
  assumes "wf_frame df" and "list_all (text_column df) network_cols"
    and "text_column df ''Bank''" and "''Credit Card Name'' \<in> set (header df)"
  shows "matching_cards U df =
           Inr (unique (map (card_name df) (filter (qualifies U df) [0..<nrows df])))"
proof -
  obtain s where s: "map_of (columns df) ''Credit Card Name'' = Some s"
    using present_column [OF assms(4)] by auto
  then have len: "length s = nrows df" using assms(1) by (rule wf_column_length [rotated])
  have "loc df (map (qualifies U df) [0..<nrows df]) ''Credit Card Name'' =
        Inr (map (card_name df) (filter (qualifies U df) [0..<nrows df]))"
    by (simp add: loc_def s loc_rows [OF len] card_name_def cell_at_def)
  then show ?thesis
    by (simp add: matching_cards_def final_mask_rows [OF assms(1,2,3)])
qed

lemma sample_wf: "wf_frame sample_table"
  by (simp add: wf_frame_def sample_table_def header_def)

lemma sample_result:
  "matching_cards U sample_table = Inr [Some (ascii ''Card B''), Some (ascii ''Card A''), None]"
  by (simp add: sample_table_def script_defs eval_nat_numeral)

section \<open>The any-column predicate\<close>

text \<open>
  C1. The claim: for every row of the loaded table the any-column predicate over Network 1
  to Network 4 is true exactly when one of these columns has a present value whose
  lower-cased text contains visa signature, and a null cell is a non-match, not an error.
  On the example table of the specification the columns Network 3 and Network 4 have no
  value in any row; \<^verbatim>\<open>read_csv\<close> types them \<^verbatim>\<open>float64\<close>, and line 13 ends with
  AttributeError instead of a mask. (Lemma \<open>visa_mask_on_text_columns\<close> gives the
  claimed mask for the tables whose four network columns each hold a text.)
\<close>

theorem visa_mask_empty_column:
  "visa_mask U example_table = Inl AttributeError \<and>
   set network_cols \<subseteq> set (header example_table) \<and> wf_frame example_table"
  by (simp add: example_table_def script_defs wf_frame_def eval_nat_numeral)

section \<open>End-to-end example\<close>

text \<open>
  C4. The claim: on the four-row example table (Card A with Visa Signature at ICICI Bank,
  Card B with Rupay at ICICI Bank, Card C with VISA SIGNATURE in Network 2 at HDFC, Card A
  again with Visa Signature at ICICI) the result is exactly the one-element sequence
  Card A. No row of the example has a value in Network 3 or Network 4, so the script ends
  with AttributeError at line 13 and prints nothing.
\<close>

theorem example_result:
  "matching_cards U example_table = Inl AttributeError \<and>
   script U example_table = (Some AttributeError, [])"
  by (simp add: script_def example_table_def script_defs eval_nat_numeral)

section \<open>Rows without any network\<close>

text \<open>
  C6. The claim: for every row whose cells in Network 1 to Network 4 are all null the
  any-match predicate is false, whatever the Bank cell is, and null cells never raise an
  error. Row 1 of \<open>empty_network_table\<close> is such a row; the column Network 4 is null in
  both rows, and the script ends with AttributeError at line 13. (Lemma
  \<open>all_null_row_on_text_columns\<close> gives False for such a row when each network column
  holds a text in some other row.)
\<close>

theorem all_null_row_raises:
  "cell_at empty_network_table ''Network 1'' 1 = None \<and>
   cell_at empty_network_table ''Network 2'' 1 = None \<and>
   cell_at empty_network_table ''Network 3'' 1 = None \<and>
   cell_at empty_network_table ''Network 4'' 1 = None \<and>
   visa_mask U empty_network_table = Inl AttributeError \<and>
   script U empty_network_table = (Some AttributeError, [])"
  by (simp add: script_def cell_at_def empty_network_table_def script_defs eval_nat_numeral)

lemma matching_cards_InrD:
  assumes wf: "wf_frame df" and res: "matching_cards U df = Inr res"
  shows "list_all (text_column df) network_cols \<and> text_column df ''Bank'' \<and>
         ''Credit Card Name'' \<in> set (header df)"
proof -
  obtain m where m: "final_mask U df = Inr m"
    using res by (cases "final_mask U df") (simp_all add: matching_cards_def)
  obtain v where v: "visa_mask U df = Inr v"
    using m by (cases "visa_mask U df") (simp_all add: final_mask_def)
  obtain c where c: "canara_mask U df = Inr c"
    using m v by (cases "canara_mask U df") (simp_all add: final_mask_def)
  have pres: "set network_cols \<subseteq> set (header df)"
    using v visa_mask_missing [of df] by (cases "set network_cols \<subseteq> set (header df)") simp_all
  have net: "list_all (text_column df) network_cols"
    using v visa_mask_cases [OF wf pres] by (simp split: if_splits)
  have bank_pres: "''Bank'' \<in> set (header df)"
    using c canara_mask_missing [of df] by (cases "''Bank'' \<in> set (header df)") simp_all
  have bank: "text_column df ''Bank''"
    using c canara_mask_cases [OF wf bank_pres] by (simp split: if_splits)
  have "''Credit Card Name'' \<in> set (header df)"
  proof (rule ccontr)
    assume "''Credit Card Name'' \<notin> set (header df)"
    then have "map_of (columns df) ''Credit Card Name'' = None" by (rule absent_column)
    then show False using res m by (simp add: matching_cards_def loc_def)
  qed
  then show ?thesis using net bank by simp
qed

lemma matching_cards_result:
  assumes "wf_frame df" and "matching_cards U df = Inr res"
  shows "res = unique (map (card_name df) (filter (qualifies U df) [0..<nrows df]))"
proof -
  note d = matching_cards_InrD [OF assms]
  show ?thesis
    using matching_cards_rows [OF assms(1) d [THEN conjunct1] d [THEN conjunct2, THEN conjunct1]
        d [THEN conjunct2, THEN conjunct2]] assms(2)
    by simp
qed

section \<open>Order and duplicates of the result\<close>

text \<open>
  C2. For every input table on which the script computes a result, the result sequence
  contains no duplicate value, and its order is the order of first appearance among the
  qualifying rows: the result is the card name of every row that qualifies and has no
  qualifying row with the same card name above it, in row order. A value shared by several
  qualifying rows therefore occurs once, at the position of the first of them.
\<close>

theorem matching_cards_first_appearance:
  assumes "wf_frame df" and "matching_cards U df = Inr res"
  shows "distinct res \<and>
         res = map (card_name df) (filter (first_qualifying U df) [0..<nrows df])"
proof -
  have "unique (map (card_name df) (filter (qualifies U df) [0..<nrows df])) =
        map (card_name df) (filter (first_qualifying U df) [0..<nrows df])"
    unfolding first_qualifying_def by (rule unique_map_filter)
  then show ?thesis
    using matching_cards_result [OF assms]
      distinct_unique [of "map (card_name df) (filter (qualifies U df) [0..<nrows df])"]
    by simp
qed

theorem matching_cards_first_appearance_witness:
  "wf_frame sample_table \<and>
   matching_cards unicode_excerpt sample_table = Inr [Some (ascii ''Card B''), Some (ascii ''Card A''), None] \<and>
   distinct [Some (ascii ''Card B''), Some (ascii ''Card A''), None] \<and>
   [Some (ascii ''Card B''), Some (ascii ''Card A''), None] =
     map (card_name sample_table) (filter (first_qualifying unicode_excerpt sample_table) [0..<nrows sample_table])"
  using matching_cards_first_appearance [OF sample_wf sample_result [of unicode_excerpt]]
    sample_wf sample_result [of unicode_excerpt]
  by blast

section \<open>The result needs both predicates\<close>

text \<open>
  C3. A value is in the result exactly when some row satisfying both predicates (a network
  column containing visa signature and the Bank column containing icici, case-insensitively)
  has it as its card name. So the card name of a row that fails the any-column predicate or
  fails the single-column predicate is not in the result, unless another row that satisfies
  both predicates has the same card name.
\<close>

theorem result_needs_both_predicates:
  assumes "wf_frame df" and "matching_cards U df = Inr res"
  shows "(\<forall>v. v \<in> set res \<longleftrightarrow>
                (\<exists>j<nrows df. spec_matches_any U df network_cols (ascii ''visa signature'') j \<and>
                     spec_matches_one U df ''Bank'' (ascii ''icici'') j \<and> card_name df j = v)) \<and>
           (\<forall>i<nrows df.
               \<not> spec_matches_any U df network_cols (ascii ''visa signature'') i \<or>
               \<not> spec_matches_one U df ''Bank'' (ascii ''icici'') i \<longrightarrow>
               card_name df i \<in> set res \<longrightarrow>
               (\<exists>j<nrows df. j \<noteq> i \<and> spec_matches_any U df network_cols (ascii ''visa signature'') j \<and>
                     spec_matches_one U df ''Bank'' (ascii ''icici'') j \<and> card_name df j = card_name df i))"
proof -
  have r: "res = unique (map (card_name df) (filter (qualifies U df) [0..<nrows df]))"
    by (rule matching_cards_result [OF assms])
  have mem: "v \<in> set res \<longleftrightarrow> (\<exists>j<nrows df. qualifies U df j \<and> card_name df j = v)" for v
    by (auto simp: r set_unique image_iff)
  have "\<forall>v. v \<in> set res \<longleftrightarrow>
                (\<exists>j<nrows df. spec_matches_any U df network_cols (ascii ''visa signature'') j \<and>
                     spec_matches_one U df ''Bank'' (ascii ''icici'') j \<and> card_name df j = v)"
    using mem by (simp add: qualifies_def)
  moreover have "\<forall>i<nrows df.
               \<not> spec_matches_any U df network_cols (ascii ''visa signature'') i \<or>
               \<not> spec_matches_one U df ''Bank'' (ascii ''icici'') i \<longrightarrow>
               card_name df i \<in> set res \<longrightarrow>
               (\<exists>j<nrows df. j \<noteq> i \<and> spec_matches_any U df network_cols (ascii ''visa signature'') j \<and>
                     spec_matches_one U df ''Bank'' (ascii ''icici'') j \<and> card_name df j = card_name df i)"
    unfolding mem by (auto simp: qualifies_def)
  ultimately show ?thesis by blast
qed

lemma sample_row2:
  "\<not> spec_matches_any unicode_excerpt sample_table network_cols (ascii ''visa signature'') 2"
  by (simp add: spec_matches_any_def spec_matches_one_def cell_at_def sample_table_def network_cols_def)

theorem result_needs_both_predicates_witness:
  "wf_frame sample_table \<and>
   matching_cards unicode_excerpt sample_table = Inr [Some (ascii ''Card B''), Some (ascii ''Card A''), None] \<and>
   (2::nat) < nrows sample_table \<and>
   \<not> spec_matches_any unicode_excerpt sample_table network_cols (ascii ''visa signature'') 2 \<and>
   card_name sample_table 2 = Some (ascii ''Card C'') \<and>
   \<not> (\<exists>j<nrows sample_table. spec_matches_any unicode_excerpt sample_table network_cols (ascii ''visa signature'') j \<and>
           spec_matches_one unicode_excerpt sample_table ''Bank'' (ascii ''icici'') j \<and>
           card_name sample_table j = Some (ascii ''Card C''))"
proof -
  have mem: "\<forall>v. v \<in> set [Some (ascii ''Card B''), Some (ascii ''Card A''), None] \<longleftrightarrow>
                (\<exists>j<nrows sample_table. spec_matches_any unicode_excerpt sample_table network_cols (ascii ''visa signature'') j \<and>
                     spec_matches_one unicode_excerpt sample_table ''Bank'' (ascii ''icici'') j \<and> card_name sample_table j = v)"
    using result_needs_both_predicates [OF sample_wf sample_result [of unicode_excerpt]] by blast
  have "Some (ascii ''Card C'') \<notin> set [Some (ascii ''Card B''), Some (ascii ''Card A''), None]"
    by (simp add: ascii_def)
  then have "\<not> (\<exists>j<nrows sample_table. spec_matches_any unicode_excerpt sample_table network_cols (ascii ''visa signature'') j \<and>
           spec_matches_one unicode_excerpt sample_table ''Bank'' (ascii ''icici'') j \<and>
           card_name sample_table j = Some (ascii ''Card C''))"
    using mem by blast
  moreover have "card_name sample_table 2 = Some (ascii ''Card C'')" "(2::nat) < nrows sample_table"
    by (simp_all add: card_name_def cell_at_def sample_table_def)
  ultimately show ?thesis
    using sample_wf sample_row2 sample_result [of unicode_excerpt] by simp
qed

lemma report_loop_lines:
  "report_loop cards out =
     out @ map (\<lambda>c. case c of None \<Rightarrow> ascii '' nan (Visa Signature)''
                     | Some s \<Rightarrow> ascii '' '' @ s @ ascii '' (Visa Signature)'') cards"
  by (induction cards arbitrary: out)
     (simp_all add: py_print_def py_str_def ascii_def split: option.splits)

lemma count_list_distinct:
  "distinct xs \<Longrightarrow> x \<in> set xs \<Longrightarrow> count_list xs x = 1"
  by (induction xs) auto

section \<open>The reporter\<close>

text \<open>
  C8. The reporter, given a sequence of values, prints exactly one fixed header line
  followed by one line per value in sequence order, each line made of a space, that value
  and the fixed suffix \<^verbatim>\<open> (Visa Signature)\<close> (a NaN value reads \<^verbatim>\<open>nan\<close>); for the empty
  sequence the header line is still printed and no value line follows.
\<close>

theorem report_lines:
  "report cards out =
     out @ ascii ''Matching Credit Cards with both 'Visa' and 'Canara':'' #
       map (\<lambda>c. case c of None \<Rightarrow> ascii '' nan (Visa Signature)''
                | Some s \<Rightarrow> ascii '' '' @ s @ ascii '' (Visa Signature)'') cards \<and>
   length (report cards out) = length out + 1 + length cards \<and>
   report [] [] = [ascii ''Matching Credit Cards with both 'Visa' and 'Canara':'']"
  by (simp add: report_def report_loop_lines py_print_def header_line_def)

theorem report_lines_example:
  "report [Some (ascii ''Card B''), None, Some (ascii ''Card A'')] [] =
     [ascii ''Matching Credit Cards with both 'Visa' and 'Canara':'',
      ascii '' Card B (Visa Signature)'',
      ascii '' nan (Visa Signature)'',
      ascii '' Card A (Visa Signature)'']"
  using report_lines [of "[Some (ascii ''Card B''), None, Some (ascii ''Card A'')]" "[]"]
  by (simp add: ascii_def)

section \<open>A qualifying row without a card name\<close>

text \<open>
  C9. If a row satisfies both predicates and its Credit Card Name cell is null, the null
  value is not skipped: it is an element of the result, once, and it is printed as a value
  line, on which it reads \<^verbatim>\<open>nan\<close>.
\<close>

theorem null_card_name_kept:
  assumes "wf_frame df" and "matching_cards U df = Inr res"
    and "i < nrows df" and "qualifies U df i" and "card_name df i = None"
  shows "None \<in> set res \<and> count_list res None = 1 \<and>
         script U df = (None, report res []) \<and>
         ascii '' nan (Visa Signature)'' \<in> set (report res [])"
proof -
  have r: "res = unique (map (card_name df) (filter (qualifies U df) [0..<nrows df]))"
    by (rule matching_cards_result [OF assms(1,2)])
  have "card_name df i \<in> set res"
    using assms(3,4) by (auto simp: r set_unique)
  then have mem: "None \<in> set res" by (simp add: assms(5))
  have "distinct res" by (simp add: r distinct_unique)
  then have one: "count_list res None = 1"
    using mem by (simp add: count_list_distinct)
  let ?line = "\<lambda>c. case c of None \<Rightarrow> ascii '' nan (Visa Signature)''
                     | Some s \<Rightarrow> ascii '' '' @ s @ ascii '' (Visa Signature)''"
  have "?line None \<in> ?line ` set res"
    using mem by (rule imageI)
  then have "ascii '' nan (Visa Signature)'' \<in> set (report res [])"
    by (simp add: report_def report_loop_lines py_print_def)
  then show ?thesis
    using mem one by (simp add: script_def assms(2))
qed

lemma sample_row4:
  "qualifies unicode_excerpt sample_table 4 \<and> card_name sample_table 4 = None"
  by (simp add: qualifies_def spec_matches_any_def spec_matches_one_def card_name_def cell_at_def
      sample_table_def network_cols_def lower_def lower_ascii_def ascii_def sublist_code)

theorem null_card_name_kept_witness:
  "wf_frame sample_table \<and>
   matching_cards unicode_excerpt sample_table =
     Inr [Some (ascii ''Card B''), Some (ascii ''Card A''), None] \<and>
   (4::nat) < nrows sample_table \<and> qualifies unicode_excerpt sample_table 4 \<and>
   card_name sample_table 4 = None \<and>
   script unicode_excerpt sample_table =
     (None, report [Some (ascii ''Card B''), Some (ascii ''Card A''), None] []) \<and>
   ascii '' nan (Visa Signature)''
     \<in> set (report [Some (ascii ''Card B''), Some (ascii ''Card A''), None] [])"
proof -
  have i: "(4::nat) < nrows sample_table" by (simp add: sample_table_def)
  show ?thesis
    using null_card_name_kept [OF sample_wf sample_result [of unicode_excerpt] i
        sample_row4 [THEN conjunct1] sample_row4 [THEN conjunct2]]
      sample_wf sample_result [of unicode_excerpt] i sample_row4
    by blast
qed

section \<open>A missing projection column\<close>

text \<open>
  Away from the \<^verbatim>\<open>float64\<close> columns: on a table without the column Credit Card Name
  whose network and Bank columns, as far as it has them, are of dtype \<^verbatim>\<open>object\<close>, the
  run ends with a KeyError that names absent labels, and prints no line, whatever the
  rows are.
\<close>

lemma missing_project_column_on_text_columns:
  assumes wf: "wf_frame df" and absent: "''Credit Card Name'' \<notin> set (header df)"
    and cols: "\<forall>c\<in>set (''Bank'' # network_cols). c \<in> set (header df) \<longrightarrow> text_column df c"
  shows "\<exists>ks. script U df = (Some (KeyError ks), []) \<and> ks \<noteq> [] \<and>
              set ks \<inter> set (header df) = {}"
proof (cases "set network_cols \<subseteq> set (header df)")
  case False
  then have "script U df = (Some (KeyError (missing_labels df network_cols)), [])"
    by (simp add: script_def matching_cards_def final_mask_def visa_mask_missing)
  moreover have "missing_labels df network_cols \<noteq> []"
    using False by (auto simp: missing_labels_def filter_empty_conv)
  moreover have "set (missing_labels df network_cols) \<inter> set (header df) = {}"
    by (auto simp: missing_labels_def)
  ultimately show ?thesis by blast
next
  case True
  then have net: "list_all (text_column df) network_cols"
    using cols by (auto simp: list_all_iff)
  show ?thesis
  proof (cases "''Bank'' \<in> set (header df)")
    case False
    then have "script U df = (Some (KeyError [''Bank'']), [])"
      by (simp add: script_def matching_cards_def final_mask_def visa_mask_rows [OF wf net]
          canara_mask_missing)
    then show ?thesis using False by simp
  next
    case True
    then have bank: "text_column df ''Bank''" using cols by simp
    have "map_of (columns df) ''Credit Card Name'' = None"
      using absent by (rule absent_column)
    then have "script U df = (Some (KeyError [''Credit Card Name'']), [])"
      by (simp add: script_def matching_cards_def final_mask_rows [OF wf net bank] loc_def)
    then show ?thesis using absent by simp
  qed
qed

text \<open>
  C7. The claim: if the column Credit Card Name is absent from the header, the script
  fails with a Missing-Column error before printing any line, the absence being checked
  once and not per row. On \<open>no_name_table\<close> the column is absent and the column Network 4
  has no value; the run prints nothing, but it ends with the AttributeError of line 13,
  not with a Missing-Column error: the \<^verbatim>\<open>float64\<close> column makes line 13 raise before
  line 22 looks the projection column up. (Lemma
  \<open>missing_project_column_on_text_columns\<close> gives the claimed failure away from such
  columns.)
\<close>

theorem missing_column_not_first:
  "''Credit Card Name'' \<notin> set (header no_name_table) \<and> wf_frame no_name_table \<and>
   script U no_name_table = (Some AttributeError, [])"
  by (simp add: script_def no_name_table_def script_defs wf_frame_def eval_nat_numeral)

lemma same_letter_ascii:
  "same_letter a b \<Longrightarrow> a < 128 \<Longrightarrow> b < 128 \<and> lower_ascii a = lower_ascii b"
  by (auto simp: same_letter_def lower_ascii_def)

lemma same_letter_beyond_ascii: "same_letter a b \<Longrightarrow> \<not> a < 128 \<Longrightarrow> b = a"
  by (auto simp: same_letter_def)

lemma lower_from_variant:
  assumes "ascii_case_stable U"
  shows "list_all2 same_letter s t \<Longrightarrow> list_all2 same_letter b b' \<Longrightarrow>
         lower_from U b s = lower_from U b' t"
proof (induction s t arbitrary: b b' rule: list_all2_induct)
  case Nil
  show ?case by simp
next
  case (Cons x xs y ys)
  have ctx: "list_all2 same_letter (b @ [x]) (b' @ [y])"
    using Cons.prems Cons.hyps(1) by (simp add: list_all2_appendI)
  have tail: "lower_from U (b @ [x]) xs = lower_from U (b' @ [y]) ys"
    by (rule Cons.IH [OF ctx])
  have head: "(if x < 128 then [lower_ascii x] else U b x xs) =
              (if y < 128 then [lower_ascii y] else U b' y ys)"
  proof (cases "x < 128")
    case True
    then show ?thesis using same_letter_ascii [OF Cons.hyps(1)] by simp
  next
    case False
    then have y: "y = x" using same_letter_beyond_ascii [OF Cons.hyps(1)] by simp
    have "U b x xs = U b' x ys"
      using assms Cons.prems Cons.hyps(2) unfolding ascii_case_stable_def by blast
    then show ?thesis using False y by simp
  qed
  show ?case using head tail by simp
qed

lemma lower_variant:
  "ascii_case_stable U \<Longrightarrow> list_all2 same_letter s t \<Longrightarrow> lower U s = lower U t"
  by (simp add: lower_def lower_from_variant)

lemma case_variant_cells:
  "ascii_case_stable U \<Longrightarrow> case_variant v w \<Longrightarrow>
   map_option (lower U) v = map_option (lower U) w \<and> (v = None \<longleftrightarrow> w = None)"
  by (cases v; cases w) (simp_all add: case_variant_def lower_variant)

lemma spec_matches_one_lower:
  "spec_matches_one U df c needle i =
     (case map_option (lower U) (cell_at df c i) of None \<Rightarrow> False
      | Some l \<Rightarrow> sublist (lower U needle) l)"
  by (simp add: spec_matches_one_def split: option.splits)

lemma spec_matches_one_variant:
  "ascii_case_stable U \<Longrightarrow> case_variant (cell_at df c i) (cell_at df' c i) \<Longrightarrow>
   spec_matches_one U df' c needle i = spec_matches_one U df c needle i"
  by (simp add: spec_matches_one_lower case_variant_cells)

lemma text_column_cells:
  assumes "wf_frame df"
  shows "text_column df c \<longleftrightarrow>
         c \<in> set (header df) \<and> (nrows df = 0 \<or> (\<exists>i<nrows df. cell_at df c i \<noteq> None))"
proof (cases "c \<in> set (header df)")
  case False
  then show ?thesis using text_column_present by blast
next
  case True
  then obtain s where s: "map_of (columns df) c = Some s"
    using present_column by blast
  then have len: "length s = nrows df" using assms by (rule wf_column_length [rotated])
  show ?thesis
    using True len by (auto simp: text_column_def s float64_def cell_at_def list_all_length)
qed

section \<open>Letter case\<close>

text \<open>
  C5. The claim: for every row both predicates are invariant under a change of the letter
  case of the inspected cells, in any letter-casing. The script lower-cases the cell with
  \<^verbatim>\<open>str.lower\<close> and looks for the needle in the result; it does not fold case. The
  dotless i and the long s are lower-case letters whose upper case is I and S: a row
  written \<^verbatim>\<open>VISA SIGNATURE\<close>, \<^verbatim>\<open>ICICI BANK\<close> satisfies both predicates, and the same
  row written with the long s and the dotless i satisfies neither.
\<close>

theorem lower_is_not_case_folding:
  "list_all2 unicode_same_letter (ascii ''VISA SIGNATURE'') long_s_visa_signature \<and>
   list_all2 unicode_same_letter (ascii ''ICICI BANK'') dotless_icici_bank \<and>
   visa_mask unicode_excerpt capital_table = Inr [True] \<and>
   visa_mask unicode_excerpt dotless_table = Inr [False] \<and>
   canara_mask unicode_excerpt capital_table = Inr [True] \<and>
   canara_mask unicode_excerpt dotless_table = Inr [False] \<and>
   matching_cards unicode_excerpt capital_table = Inr [Some (ascii ''Card A'')] \<and>
   matching_cards unicode_excerpt dotless_table = Inr []"
  by (simp add: capital_table_def dotless_table_def dotless_icici_bank_def
      long_s_visa_signature_def unicode_excerpt_def unicode_same_letter_def same_letter_def
      script_defs eval_nat_numeral)

text \<open>
  The other way round, the capital I with dot above lowers to i and a combining dot, so
  that the bank written \<^verbatim>\<open>ICIC\<close> and this letter contains \<^verbatim>\<open>icici\<close>.
\<close>

lemma dotted_capital_i_matches:
  "canara_mask unicode_excerpt dotted_table = Inr [True] \<and>
   matching_cards unicode_excerpt dotted_table = Inr [Some (ascii ''Card A'')]"
  by (simp add: dotted_table_def unicode_excerpt_def script_defs eval_nat_numeral)

text \<open>
  C5, amended. Both predicates are invariant under a change of the case of the letters A
  to Z in the inspected cells: two tables with the same columns whose network and Bank
  cells differ in the case of these letters only give the same any-column mask, the same
  Bank mask and the same combined mask, row by row.
\<close>

theorem masks_case_insensitive:
  assumes "ascii_case_stable U" and "wf_frame df" and "wf_frame df'"
    and "header df' = header df" and "nrows df' = nrows df"
    and "\<forall>c\<in>set (''Bank'' # network_cols). \<forall>i<nrows df.
            case_variant (cell_at df c i) (cell_at df' c i)"
  shows "visa_mask U df' = visa_mask U df \<and> canara_mask U df' = canara_mask U df \<and>
         final_mask U df' = final_mask U df"
proof -
  have cells: "case_variant (cell_at df c i) (cell_at df' c i)"
    if "c \<in> set (''Bank'' # network_cols)" and "i < nrows df" for c i
    using assms(6) that by blast
  have tcol: "text_column df' c = text_column df c"
    if c: "c \<in> set (''Bank'' # network_cols)" for c
  proof -
    have "(cell_at df' c i \<noteq> None) = (cell_at df c i \<noteq> None)" if "i < nrows df" for i
      using case_variant_cells [OF assms(1) cells [OF c that]] by simp
    then show ?thesis
      by (auto simp: text_column_cells [OF assms(2)] text_column_cells [OF assms(3)] assms(4,5))
  qed
  have one: "spec_matches_one U df' c needle i = spec_matches_one U df c needle i"
    if "c \<in> set (''Bank'' # network_cols)" and "i < nrows df" for c i needle
    by (rule spec_matches_one_variant [OF assms(1) cells [OF that]])
  have visa: "visa_mask U df' = visa_mask U df"
  proof (cases "set network_cols \<subseteq> set (header df)")
    case True
    have "list_all (text_column df') network_cols = list_all (text_column df) network_cols"
      using tcol by (simp add: list_all_iff)
    moreover have
      "map (spec_matches_any U df' network_cols (ascii ''visa signature'')) [0..<nrows df] =
       map (spec_matches_any U df network_cols (ascii ''visa signature'')) [0..<nrows df]"
      using one by (simp add: spec_matches_any_def list_ex_iff)
    ultimately show ?thesis
      using True by (simp add: visa_mask_cases assms(2,3,4,5))
  next
    case False
    then show ?thesis
      by (simp add: visa_mask_missing assms(4) missing_labels_def)
  qed
  have canara: "canara_mask U df' = canara_mask U df"
  proof (cases "''Bank'' \<in> set (header df)")
    case True
    have "map (spec_matches_one U df' ''Bank'' (ascii ''icici'')) [0..<nrows df] =
          map (spec_matches_one U df ''Bank'' (ascii ''icici'')) [0..<nrows df]"
      using one by simp
    then show ?thesis
      using True tcol [of "''Bank''"] by (simp add: canara_mask_cases assms(2,3,4,5))
  next
    case False
    then show ?thesis by (simp add: canara_mask_missing assms(4))
  qed
  show ?thesis unfolding final_mask_def visa canara by simp
qed

lemma excerpt_stable: "ascii_case_stable unicode_excerpt"
  by (simp add: ascii_case_stable_def unicode_excerpt_def)

theorem masks_case_insensitive_witness:
  "ascii_case_stable unicode_excerpt \<and> wf_frame plain_table \<and> wf_frame cased_table \<and>
   header cased_table = header plain_table \<and> nrows cased_table = nrows plain_table \<and>
   cell_at plain_table ''Network 1'' 0 = Some (ascii ''visa signature'') \<and>
   cell_at cased_table ''Network 1'' 0 = Some (ascii ''VISA Signature'') \<and>
   case_variant (Some (ascii ''visa signature'')) (Some (ascii ''VISA Signature'')) \<and>
   visa_mask unicode_excerpt cased_table = visa_mask unicode_excerpt plain_table \<and>
   canara_mask unicode_excerpt cased_table = canara_mask unicode_excerpt plain_table \<and>
   final_mask unicode_excerpt cased_table = final_mask unicode_excerpt plain_table \<and>
   final_mask unicode_excerpt plain_table = Inr [True, False]"
proof -
  have w1: "wf_frame plain_table" and w2: "wf_frame cased_table"
    by (simp_all add: wf_frame_def plain_table_def cased_table_def header_def)
  have h: "header cased_table = header plain_table"
    by (simp add: plain_table_def cased_table_def header_def)
  have n: "nrows cased_table = nrows plain_table"
    by (simp add: plain_table_def cased_table_def)
  have c: "\<forall>c\<in>set (''Bank'' # network_cols). \<forall>i<nrows plain_table.
        case_variant (cell_at plain_table c i) (cell_at cased_table c i)"
    by (simp add: plain_table_def cased_table_def network_cols_def cell_at_def case_variant_def
        same_letter_def ascii_def less_Suc_eq eval_nat_numeral)
  have m: "final_mask unicode_excerpt plain_table = Inr [True, False]"
    by (simp add: plain_table_def unicode_excerpt_def script_defs eval_nat_numeral)
  have v: "cell_at plain_table ''Network 1'' 0 = Some (ascii ''visa signature'')"
    "cell_at cased_table ''Network 1'' 0 = Some (ascii ''VISA Signature'')"
    "case_variant (Some (ascii ''visa signature'')) (Some (ascii ''VISA Signature''))"
    by (simp_all add: plain_table_def cased_table_def cell_at_def case_variant_def
        same_letter_def ascii_def)
  show ?thesis
    using masks_case_insensitive [OF excerpt_stable w1 w2 h n c] excerpt_stable w1 w2 h n v m
    by blast
qed

lemma inspected_column_eq:
  assumes wf: "wf_frame df" and wf': "wf_frame df'" and n: "nrows df' = nrows df"
    and pres: "c \<in> set (header df') \<longleftrightarrow> c \<in> set (header df)"
    and cells: "\<forall>i<nrows df. cell_at df' c i = cell_at df c i"
  shows "map_of (columns df') c = map_of (columns df) c"
proof (cases "c \<in> set (header df)")
  case False
  then show ?thesis using pres by (simp add: absent_column)
next
  case True
  obtain s where s: "map_of (columns df) c = Some s"
    using present_column [OF True] by auto
  obtain s' where s': "map_of (columns df') c = Some s'"
    using present_column [of c df'] True pres by auto
  have l: "length s = nrows df" by (rule wf_column_length [OF wf s])
  have l': "length s' = nrows df" using wf_column_length [OF wf' s'] n by simp
  have "s' = s"
  proof (rule nth_equalityI)
    show "length s' = length s" by (simp add: l l')
    fix i assume "i < length s'"
    then have "cell_at df' c i = cell_at df c i" using cells l' by simp
    then show "s' ! i = s ! i" by (simp add: cell_at_def s s')
  qed
  then show ?thesis by (simp add: s s')
qed

lemma take_columns_cong:
  "\<forall>c\<in>set cs. map_of cols' c = map_of cols c \<Longrightarrow>
   take_columns cols' cs = take_columns cols cs"
  by (induction cs) (simp_all split: option.splits)

section \<open>Determinism\<close>

text \<open>
  C10. The script is deterministic: the computed result sequence and the printed output
  are determined by the contents of the loaded table and by nothing else. They are
  determined by the number of rows and the cells of the six columns that the script
  names: two loaded tables that agree there give the same result and the same output,
  whatever other columns they have and in whatever order their columns stand. Two equal
  tables are the special case in which everything agrees.
\<close>

theorem script_depends_on_table_contents:
  assumes "wf_frame df" and "wf_frame df'" and "nrows df' = nrows df"
    and "\<forall>c\<in>set (network_cols @ [''Bank'', ''Credit Card Name'']).
            (c \<in> set (header df') \<longleftrightarrow> c \<in> set (header df)) \<and>
            (\<forall>i<nrows df. cell_at df' c i = cell_at df c i)"
  shows "matching_cards U df' = matching_cards U df \<and> script U df' = script U df"
proof -
  have col: "map_of (columns df') c = map_of (columns df) c"
    if "c \<in> set (network_cols @ [''Bank'', ''Credit Card Name''])" for c
    using assms(4) that by (intro inspected_column_eq [OF assms(1,2,3)]) blast+
  have "missing_labels df' network_cols = missing_labels df network_cols"
    using assms(4) by (auto simp: missing_labels_def intro!: filter_cong)
  moreover have "take_columns (columns df') network_cols = take_columns (columns df) network_cols"
    using col by (intro take_columns_cong) simp
  ultimately have visa: "visa_mask U df' = visa_mask U df"
    by (simp add: visa_mask_def getitem_list_def assms(3))
  have canara: "canara_mask U df' = canara_mask U df"
    using col [of "''Bank''"] by (simp add: canara_mask_def getitem_def)
  have final: "final_mask U df' = final_mask U df"
    unfolding final_mask_def visa canara by simp
  have lc: "loc df' m ''Credit Card Name'' = loc df m ''Credit Card Name''" for m
    using col [of "''Credit Card Name''"] by (simp add: loc_def)
  have cards: "matching_cards U df' = matching_cards U df"
    by (cases "final_mask U df") (simp_all add: matching_cards_def final lc)
  show ?thesis using cards by (simp add: script_def)
qed

lemma wide_wf: "wf_frame wide_table"
  by (simp add: wf_frame_def wide_table_def header_def)

theorem script_depends_on_table_contents_witness:
  "wf_frame sample_table \<and> wf_frame wide_table \<and> nrows wide_table = nrows sample_table \<and>
   header wide_table \<noteq> header sample_table \<and>
   cell_at wide_table ''Bank'' 1 = cell_at sample_table ''Bank'' 1 \<and>
   matching_cards unicode_excerpt wide_table = matching_cards unicode_excerpt sample_table \<and>
   script unicode_excerpt wide_table = script unicode_excerpt sample_table \<and>
   matching_cards unicode_excerpt sample_table =
     Inr [Some (ascii ''Card B''), Some (ascii ''Card A''), None]"
proof -
  have n: "nrows wide_table = nrows sample_table"
    by (simp add: wide_table_def sample_table_def)
  have c: "\<forall>c\<in>set (network_cols @ [''Bank'', ''Credit Card Name'']).
            (c \<in> set (header wide_table) \<longleftrightarrow> c \<in> set (header sample_table)) \<and>
            (\<forall>i<nrows sample_table. cell_at wide_table c i = cell_at sample_table c i)"
    by (simp add: network_cols_def header_def cell_at_def wide_table_def sample_table_def)
  have h: "header wide_table \<noteq> header sample_table"
    by (simp add: header_def wide_table_def sample_table_def)
  have b: "cell_at wide_table ''Bank'' 1 = cell_at sample_table ''Bank'' 1"
    by (simp add: cell_at_def wide_table_def sample_table_def)
  show ?thesis
    using script_depends_on_table_contents [OF sample_wf wide_wf n c, of unicode_excerpt]
      sample_wf wide_wf n h b sample_result [of unicode_excerpt]
    by blast
qed

end
